theory Spec2Isabelle
  imports Complex_Main
begin

section \<open>JavaScript numbers\<close>

text \<open>
  \<^verbatim>\<open>progress\<close> is a JavaScript \<^verbatim>\<open>number\<close>: an IEEE 754 binary64 value. A finite
  double is carried by the rational it denotes; \<^verbatim>\<open>NaN\<close> and the two infinities are
  values of their own. The two zeros are one value here: nothing the component shows
  or sends tells \<^verbatim>\<open>-0\<close> from \<^verbatim>\<open>+0\<close> (\<^verbatim>\<open>Math.max(0, -0)\<close> is \<^verbatim>\<open>+0\<close>, and
  \<^verbatim>\<open>-0\<close> prints as \<^verbatim>\<open>0\<close>).
\<close>

datatype jsnum = NaN | Fin rat | PInf | NInf

definition pow2 :: "int \<Rightarrow> rat" where
  "pow2 k = (if 0 \<le> k then 2 ^ nat k else 1 / 2 ^ nat (- k))"

text \<open>The binary exponent of a positive rational: \<open>2 ^ e \<le> q < 2 ^ (e + 1)\<close>.\<close>

function floor_log2 :: "rat \<Rightarrow> int" where
  "floor_log2 q =
     (if q \<le> 0 then 0
      else if 2 \<le> q then floor_log2 (q / 2) + 1
      else if q < 1 then floor_log2 (q * 2) - 1
      else 0)"
  by pat_completeness auto
termination
proof (relation "measure (\<lambda>q. nat (2 * \<lceil>1 / q\<rceil> + \<lceil>q\<rceil>))")
  show "wf (measure (\<lambda>q::rat. nat (2 * \<lceil>1 / q\<rceil> + \<lceil>q\<rceil>)))"
    by simp
next
  fix q :: rat
  assume big: "2 \<le> q"
  have a: "\<lceil>2 / q\<rceil> = 1"
    using big by (intro ceiling_unique) (auto simp: field_simps)
  have b: "\<lceil>1 / q\<rceil> = 1"
    using big by (intro ceiling_unique) (auto simp: field_simps)
  have "q / 2 \<le> q - 1"
    using big by simp
  then have "\<lceil>q / 2\<rceil> \<le> \<lceil>q - 1\<rceil>"
    by (rule ceiling_mono)
  then have c: "\<lceil>q / 2\<rceil> \<le> \<lceil>q\<rceil> - 1"
    by simp
  have d: "0 < \<lceil>q / 2\<rceil>"
    using big by simp
  have "0 < 2 * \<lceil>1 / q\<rceil> + \<lceil>q\<rceil> \<and> 2 * \<lceil>2 / q\<rceil> + \<lceil>q / 2\<rceil> < 2 * \<lceil>1 / q\<rceil> + \<lceil>q\<rceil>"
    using a b c d by linarith
  then show "(q / 2, q) \<in> measure (\<lambda>q. nat (2 * \<lceil>1 / q\<rceil> + \<lceil>q\<rceil>))"
    by simp
next
  fix q :: rat
  assume pos: "\<not> q \<le> 0" and small: "q < 1"
  have d: "\<lceil>q\<rceil> = 1"
    using pos small by (intro ceiling_unique) auto
  have "0 < 2 * \<lceil>1 / q\<rceil> + \<lceil>q\<rceil> \<and>
      2 * \<lceil>1 / (q * 2)\<rceil> + \<lceil>q * 2\<rceil> < 2 * \<lceil>1 / q\<rceil> + \<lceil>q\<rceil>"
  proof (cases "1 / 2 \<le> q")
    case True
    have a: "\<lceil>1 / (q * 2)\<rceil> = 1"
      using pos True by (intro ceiling_unique) (auto simp: field_simps)
    have b: "\<lceil>1 / q\<rceil> = 2"
      using pos small True by (intro ceiling_unique) (auto simp: field_simps)
    have c: "\<lceil>q * 2\<rceil> \<le> 2"
      using small by (simp add: ceiling_le_iff)
    show ?thesis
      using a b c d by linarith
  next
    case False
    have a: "\<lceil>q * 2\<rceil> = 1"
      using pos False by (intro ceiling_unique) auto
    have "1 / (q * 2) \<le> 1 / q - 1"
      using pos False by (simp add: field_simps)
    then have "\<lceil>1 / (q * 2)\<rceil> \<le> \<lceil>1 / q - 1\<rceil>"
      by (rule ceiling_mono)
    then have c: "\<lceil>1 / (q * 2)\<rceil> \<le> \<lceil>1 / q\<rceil> - 1"
      by simp
    have e: "0 < \<lceil>1 / (q * 2)\<rceil>"
      using pos by simp
    show ?thesis
      using a c d e by linarith
  qed
  then show "(q * 2, q) \<in> measure (\<lambda>q. nat (2 * \<lceil>1 / q\<rceil> + \<lceil>q\<rceil>))"
    by simp
qed

declare floor_log2.simps [simp del]

definition round_half_even :: "rat \<Rightarrow> int" where
  "round_half_even q =
     (let f = \<lfloor>q\<rfloor>; r = q - of_int f
      in if r < 1 / 2 then f else if 1 / 2 < r then f + 1 else if even f then f else f + 1)"

text \<open>
  Rounding a positive rational to binary64, to nearest with ties to even: 53 significant
  bits at the binary exponent of \<open>q\<close>, the exponent held at \<open>-1022\<close> for subnormals,
  and \<^verbatim>\<open>Infinity\<close> once the rounded value reaches \<open>2 ^ 1024\<close>.
\<close>

definition round_pos :: "rat \<Rightarrow> jsnum" where
  "round_pos q =
     (let e = max (floor_log2 q) (- 1022);
          m = round_half_even (q / pow2 (e - 52))
      in if 1024 \<le> e \<or> (e = 1023 \<and> m = 2 ^ 53) then PInf
         else Fin (of_int m * pow2 (e - 52)))"

definition js_neg :: "jsnum \<Rightarrow> jsnum" where
  "js_neg x = (case x of NaN \<Rightarrow> NaN | Fin q \<Rightarrow> Fin (- q) | PInf \<Rightarrow> NInf | NInf \<Rightarrow> PInf)"

text \<open>The double nearest to a rational: the value of a decimal literal, or of an exact
  product before it is stored.\<close>

definition to_double :: "rat \<Rightarrow> jsnum" where
  "to_double q =
     (if q = 0 then Fin 0 else if 0 < q then round_pos q else js_neg (round_pos (- q)))"

text \<open>\<^verbatim>\<open>x * y\<close>\<close>

fun js_mul :: "jsnum \<Rightarrow> jsnum \<Rightarrow> jsnum" where
  "js_mul NaN y = NaN"
| "js_mul x NaN = NaN"
| "js_mul (Fin a) (Fin b) = to_double (a * b)"
| "js_mul (Fin a) PInf = (if a = 0 then NaN else if 0 < a then PInf else NInf)"
| "js_mul (Fin a) NInf = (if a = 0 then NaN else if 0 < a then NInf else PInf)"
| "js_mul PInf (Fin b) = (if b = 0 then NaN else if 0 < b then PInf else NInf)"
| "js_mul NInf (Fin b) = (if b = 0 then NaN else if 0 < b then NInf else PInf)"
| "js_mul PInf PInf = PInf"
| "js_mul PInf NInf = NInf"
| "js_mul NInf PInf = NInf"
| "js_mul NInf NInf = PInf"

text \<open>\<^verbatim>\<open>x < y\<close> and \<^verbatim>\<open>x >= y\<close>: both false as soon as one side is \<^verbatim>\<open>NaN\<close>.\<close>

fun js_lt :: "jsnum \<Rightarrow> jsnum \<Rightarrow> bool" where
  "js_lt NaN y = False"
| "js_lt x NaN = False"
| "js_lt (Fin a) (Fin b) = (a < b)"
| "js_lt (Fin a) PInf = True"
| "js_lt (Fin a) NInf = False"
| "js_lt PInf y = False"
| "js_lt NInf NInf = False"
| "js_lt NInf y = True"

fun js_ge :: "jsnum \<Rightarrow> jsnum \<Rightarrow> bool" where
  "js_ge NaN y = False"
| "js_ge x NaN = False"
| "js_ge x y = (\<not> js_lt x y)"

text \<open>\<^verbatim>\<open>Math.max\<close> and \<^verbatim>\<open>Math.min\<close> of two arguments: \<^verbatim>\<open>NaN\<close> if either is.\<close>

fun Math_max :: "jsnum \<Rightarrow> jsnum \<Rightarrow> jsnum" where
  "Math_max NaN y = NaN"
| "Math_max x NaN = NaN"
| "Math_max x y = (if js_lt x y then y else x)"

fun Math_min :: "jsnum \<Rightarrow> jsnum \<Rightarrow> jsnum" where
  "Math_min NaN y = NaN"
| "Math_min x NaN = NaN"
| "Math_min x y = (if js_lt y x then y else x)"

text \<open>\<^verbatim>\<open>Math.trunc\<close>: the integral part, the fraction dropped.\<close>

fun Math_trunc :: "jsnum \<Rightarrow> jsnum" where
  "Math_trunc (Fin q) = Fin (of_int (if 0 \<le> q then \<lfloor>q\<rfloor> else \<lceil>q\<rceil>))"
| "Math_trunc x = x"

text \<open>Decimal digits of a natural number.\<close>

fun digits :: "nat \<Rightarrow> string" where
  "digits n = (if n < 10 then [''0123456789'' ! n] else digits (n div 10) @ [''0123456789'' ! (n mod 10)])"

declare digits.simps [simp del]

text \<open>
  \<^verbatim>\<open>Number::toString\<close>, as a template literal and a JSX child apply it. ECMAScript prints
  the shortest decimal that reads back as the same double; for an integer of magnitude
  below \<open>2 ^ 53\<close> that is its decimal expansion. Fractions and larger magnitudes
  (exponent notation from \<open>10 ^ 21\<close> on) are not modelled: \<open>None\<close>.
\<close>

definition js_toString :: "jsnum \<Rightarrow> string option" where
  "js_toString x =
     (case x of
        NaN \<Rightarrow> Some ''NaN''
      | PInf \<Rightarrow> Some ''Infinity''
      | NInf \<Rightarrow> Some ''-Infinity''
      | Fin q \<Rightarrow>
          if of_int \<lfloor>q\<rfloor> = q \<and> \<bar>q\<bar> < 2 ^ 53
          then Some ((if q < 0 then ''-'' else '''') @ digits (nat \<bar>\<lfloor>q\<rfloor>\<bar>))
          else None)"

section \<open>The progress update and the host messenger\<close>

text \<open>
  \<^verbatim>\<open>IndexingProgressUpdate\<close> (declared in \<^verbatim>\<open>core\<close>): the component reads the four
  fields below. \<^verbatim>\<open>status\<close> is compared with string literals and has a fall-through
  branch, so it stays a string; \<^verbatim>\<open>shouldClearIndexes\<close> is optional.
\<close>

record IndexingProgressUpdate =
  progress :: jsnum
  desc :: string
  shouldClearIndexes :: "bool option"
  status :: string

text \<open>The second argument of \<^verbatim>\<open>ideMessenger.post\<close>: \<^verbatim>\<open>undefined\<close>, a boolean, or the
  object \<^verbatim>\<open>{ shouldClearIndexes: b }\<close>.\<close>

datatype Payload = Undefined | Boolean bool | ClearIndexes bool

type_synonym Message = "string \<times> Payload"

text \<open>What a callback does when it runs: \<^verbatim>\<open>posthog.capture(name)\<close> or
  \<^verbatim>\<open>ideMessenger.post(name, data)\<close>.\<close>

datatype Effect = Capture string | Post string Payload

text \<open>The \<^verbatim>\<open>ConfirmationDialog\<close> element handed to \<^verbatim>\<open>setDialogMessage\<close>; the prop
  \<^verbatim>\<open>text\<close> is the field \<open>dialogText\<close>.\<close>

record ConfirmationDialog =
  title :: string
  confirmText :: string
  dialogText :: string
  onConfirm :: "Effect list"

text \<open>
  What the component reads from its surroundings: \<^verbatim>\<open>isJetBrains()\<close>, the Redux value
  \<^verbatim>\<open>state.state.config.embeddingsProvider\<close>, the constant
  \<^verbatim>\<open>TransformersJsEmbeddingsProvider.model\<close> (declared outside this file), and whether
  \<^verbatim>\<open>document.getElementById("tooltip-portal-div")\<close> finds an element.
\<close>

record Env =
  isJetBrains :: bool
  embeddingsProvider :: "string option"
  transformersJsModel :: string
  tooltipPortalDiv :: bool

text \<open>
  The state one mounted component lives in: its prop, its two \<^verbatim>\<open>useState\<close> cells, the
  Redux dialog slice it dispatches to, and the calls it has made so far to
  \<^verbatim>\<open>ideMessenger.post\<close> (\<open>posted\<close>, oldest first) and \<^verbatim>\<open>posthog.capture\<close>.
\<close>

record BarState =
  indexingStateProp :: "IndexingProgressUpdate option"
  paused :: "bool option"
  hovered :: bool
  showDialog :: bool
  dialogMessage :: "ConfirmationDialog option"
  posted :: "Message list"
  captured :: "string list"

definition post :: "string \<Rightarrow> Payload \<Rightarrow> BarState \<Rightarrow> BarState" where
  "post name data s = s\<lparr>posted := posted s @ [(name, data)]\<rparr>"

definition capture :: "string \<Rightarrow> BarState \<Rightarrow> BarState" where
  "capture name s = s\<lparr>captured := captured s @ [name]\<rparr>"

fun run_effect :: "Effect \<Rightarrow> BarState \<Rightarrow> BarState" where
  "run_effect (Capture name) s = capture name s"
| "run_effect (Post name data) s = post name data s"

section \<open>The component\<close>

definition defaultIndexingState :: IndexingProgressUpdate where
  "defaultIndexingState =
     \<lparr>progress = Fin 0, desc = [], shouldClearIndexes = None, status = ''loading''\<rparr>"

text \<open>\<^verbatim>\<open>indexingStateProp || defaultIndexingState\<close>: an object is truthy.\<close>

definition indexingState :: "BarState \<Rightarrow> IndexingProgressUpdate" where
  "indexingState s =
     (case indexingStateProp s of None \<Rightarrow> defaultIndexingState | Some u \<Rightarrow> u)"

definition fillPercentage :: "IndexingProgressUpdate \<Rightarrow> jsnum" where
  "fillPercentage u = Math_min (Fin 100) (Math_max (Fin 0) (js_mul (progress u) (Fin 100)))"

text \<open>
  The first effect, \<^verbatim>\<open>useEffect(..., [])\<close>. \<^verbatim>\<open>initialized\<close> is a \<^verbatim>\<open>let\<close> of the
  render the effect closes over, so it is \<^verbatim>\<open>false\<close> when the effect runs.
\<close>

definition init_effect :: "BarState \<Rightarrow> BarState" where
  "init_effect s =
     (let initialized = False
      in if \<not> initialized then post ''index/indexingProgressBarInitialized'' Undefined s
         else s)"

text \<open>The second effect, \<^verbatim>\<open>useEffect(..., [paused])\<close>.\<close>

definition paused_effect :: "BarState \<Rightarrow> BarState" where
  "paused_effect s =
     (case paused s of None \<Rightarrow> s | Some b \<Rightarrow> post ''index/setPaused'' (Boolean b) s)"

definition rebuildDialog :: ConfirmationDialog where
  "rebuildDialog =
     \<lparr>title = ''Rebuild codebase index'',
      confirmText = ''Rebuild'',
      dialogText =
        ''Your index appears corrupted. We recommend clearing and rebuilding it, '' @
        ''which may take time for large codebases.'' @ [CHR 0x0A, CHR 0x0A] @
        ''For a faster rebuild without clearing data, press '' @ [CHR 0x27] @
        ''Shift + Command + P'' @ [CHR 0x27] @ '' to open '' @
        ''the Command Palette, and type out '' @ [CHR 0x27] @
        ''Continue: Force Codebase Re-Indexing'' @ [CHR 0x27],
      onConfirm =
        [Capture ''rebuild_index_clicked'', Post ''index/forceReIndex'' (ClearIndexes True)]\<rparr>"

text \<open>\<^verbatim>\<open>!prev\<close> on a \<^verbatim>\<open>boolean | undefined\<close>: \<^verbatim>\<open>undefined\<close> is falsy.\<close>

definition js_not :: "bool option \<Rightarrow> bool" where
  "js_not prev = (case prev of None \<Rightarrow> True | Some b \<Rightarrow> \<not> b)"

text \<open>
  The row's handler. \<^verbatim>\<open>setPaused((prev) => !prev)\<close> is the only state update a click
  queues, and no handler reads \<^verbatim>\<open>paused\<close>, so the update is applied where it is queued.
\<close>

definition onClick :: "Env \<Rightarrow> BarState \<Rightarrow> BarState" where
  "onClick env s =
     (let u = indexingState s in
      if status u = ''failed'' then
        (if shouldClearIndexes u = Some True \<and> \<not> isJetBrains env
         then s\<lparr>showDialog := True, dialogMessage := Some rebuildDialog\<rparr>
         else post ''index/forceReIndex'' Undefined s)
      else if status u = ''indexing'' \<or> status u = ''paused'' then
        (if js_lt (progress u) (Fin 1) \<and> js_ge (progress u) (Fin 0)
         then s\<lparr>paused := Some (js_not (paused s))\<rparr>
         else post ''index/forceReIndex'' Undefined s)
      else post ''index/forceReIndex'' Undefined s)"

definition getIndexingErrMsg :: "Env \<Rightarrow> string \<Rightarrow> string" where
  "getIndexingErrMsg env msg =
     (if isJetBrains env \<and> embeddingsProvider env = Some (transformersJsModel env)
      then ''The '' @ [CHR 0x27] @ ''transformers.js'' @ [CHR 0x27] @
           '' embeddingsProvider is currently unsupported in JetBrains. '' @
           ''To enable codebase indexing, you can use any of the other providers described '' @
           ''in the docs: https://docs.continue.dev/walkthroughs/codebase-embeddings#embeddings-providers''
      else msg)"

text \<open>
  What one render returns. \<open>variant\<close> names the branch of the conditional chain taken;
  \<open>heading\<close> is the \<^verbatim>\<open>StatusHeading\<close>'s children; \<open>tooltip\<close> the lines of the
  \<^verbatim>\<open>StyledTooltip\<close>, present only when the portal element exists; \<open>completed\<close> the
  prop of \<^verbatim>\<open>ProgressBarFill\<close>; \<open>info\<close> the \<^verbatim>\<open>StatusInfo\<close> text. Colours, blinking
  and font sizes are left out.
\<close>

datatype Variant = Failed | Loading | Done | Disabled | Paused | Indexing | Null

text \<open>A piece of text content: literal text, or a number React (or a template literal)
  prints with \<^verbatim>\<open>Number::toString\<close>.\<close>

datatype Child = Txt string | Num jsnum

record Rendered =
  variant :: Variant
  heading :: "Child list option"
  tooltip :: "string list option"
  completed :: "jsnum option"
  info :: "string option"

fun text_of :: "Child list \<Rightarrow> string option" where
  "text_of [] = Some []"
| "text_of (Txt t # cs) = map_option (\<lambda>r. t @ r) (text_of cs)"
| "text_of (Num n # cs) =
     (case js_toString n of
        None \<Rightarrow> None
      | Some t \<Rightarrow> map_option (\<lambda>r. t @ r) (text_of cs))"

definition portal :: "Env \<Rightarrow> string list \<Rightarrow> string list option" where
  "portal env ls = (if tooltipPortalDiv env then Some ls else None)"

definition IndexingProgressBar :: "Env \<Rightarrow> BarState \<Rightarrow> Rendered" where
  "IndexingProgressBar env s =
     (let u = indexingState s in
      if status u = ''failed'' then
        \<lparr>variant = Failed,
         heading = Some [Txt ''Indexing error - click to retry''],
         tooltip = portal env [getIndexingErrMsg env (desc u)],
         completed = None, info = None\<rparr>
      else if status u = ''loading'' then
        \<lparr>variant = Loading,
         heading = Some [Txt ''Initializing''],
         tooltip = None, completed = None, info = None\<rparr>
      else if status u = ''done'' then
        \<lparr>variant = Done,
         heading = Some [Txt ''Index up to date''],
         tooltip = portal env [''Index up to date'', ''Click to force re-indexing''],
         completed = None, info = None\<rparr>
      else if status u = ''disabled'' then
        \<lparr>variant = Disabled,
         heading = None,
         tooltip = portal env [desc u],
         completed = None, info = None\<rparr>
      else if status u = ''paused'' \<or> (paused s = Some True \<and> status u = ''indexing'') then
        \<lparr>variant = Paused,
         heading = Some [Txt ''Indexing paused ('', Num (Math_trunc (js_mul (progress u) (Fin 100))),
                         Txt ''%)''],
         tooltip = None, completed = None, info = None\<rparr>
      else if status u = ''indexing'' then
        \<lparr>variant = Indexing,
         heading = Some [Num (Math_trunc (js_mul (progress u) (Fin 100))), Txt ''%''],
         tooltip = None,
         completed = Some (fillPercentage u),
         info = Some (if hovered s then ''Click to pause'' else desc u)\<rparr>
      else
        \<lparr>variant = Null, heading = None, tooltip = None, completed = None, info = None\<rparr>)"

section \<open>Events\<close>

text \<open>
  The rendered tree is the row \<^verbatim>\<open>div\<close>, inside it the branch's \<^verbatim>\<open>FlexDiv\<close>, inside that
  the \<^verbatim>\<open>StatusDot\<close>. \<^verbatim>\<open>FlexDiv\<close> is a \<^verbatim>\<open>styled.div\<close>, so its \<^verbatim>\<open>onClick\<close> sits
  on a DOM element.

  Modelled from the spec: \<^verbatim>\<open>StatusDot\<close> is imported from \<^verbatim>\<open>./StatusDot\<close>; it is taken to
  put the \<^verbatim>\<open>onClick\<close> it is given on the dot's own element, a descendant of the row (the
  spec's dedicated sub-element whose click sends \<^verbatim>\<open>setPaused(false)\<close>).
\<close>

datatype Element = StatusDot | FlexDiv | Row

text \<open>The \<^verbatim>\<open>onClick\<close> each element carries in each branch.\<close>

definition click_handler :: "Env \<Rightarrow> Variant \<Rightarrow> Element \<Rightarrow> (BarState \<Rightarrow> BarState) option" where
  "click_handler env v el =
     (case el of
        Row \<Rightarrow> Some (onClick env)
      | FlexDiv \<Rightarrow> if v = Indexing then Some (post ''index/setPaused'' (Boolean True)) else None
      | StatusDot \<Rightarrow> if v = Paused then Some (post ''index/setPaused'' (Boolean False)) else None)"

text \<open>
  React hands a click to the handler of the element clicked and then to the handlers of
  its ancestors, innermost first, unless one of them calls \<^verbatim>\<open>stopPropagation\<close>; no
  handler of this file does.
\<close>

fun bubble_path :: "Element \<Rightarrow> Element list" where
  "bubble_path StatusDot = [StatusDot, FlexDiv, Row]"
| "bubble_path FlexDiv = [FlexDiv, Row]"
| "bubble_path Row = [Row]"

definition dispatch_click :: "Env \<Rightarrow> Variant \<Rightarrow> Element \<Rightarrow> BarState \<Rightarrow> BarState" where
  "dispatch_click env v target s =
     fold (\<lambda>el st. case click_handler env v el of None \<Rightarrow> st | Some h \<Rightarrow> h st)
       (bubble_path target) s"

text \<open>
  After the handlers, React renders again and runs the effects whose dependencies
  changed: the \<^verbatim>\<open>[]\<close> effect never again, the \<^verbatim>\<open>[paused]\<close> effect when \<^verbatim>\<open>paused\<close> is
  not the value of the previous render.
\<close>

definition commit :: "bool option \<Rightarrow> BarState \<Rightarrow> BarState" where
  "commit prev s = (if paused s = prev then s else paused_effect s)"

definition click :: "Env \<Rightarrow> Element \<Rightarrow> BarState \<Rightarrow> BarState" where
  "click env target s =
     commit (paused s) (dispatch_click env (variant (IndexingProgressBar env s)) target s)"

text \<open>\<^verbatim>\<open>onMouseEnter\<close> and \<^verbatim>\<open>onMouseLeave\<close> exist on the Indexing branch's \<^verbatim>\<open>FlexDiv\<close> only.\<close>

definition set_hovered :: "Env \<Rightarrow> bool \<Rightarrow> BarState \<Rightarrow> BarState" where
  "set_hovered env h s =
     (if variant (IndexingProgressBar env s) = Indexing then s\<lparr>hovered := h\<rparr> else s)"

text \<open>
  Modelled from the spec: \<^verbatim>\<open>ConfirmationDialog\<close> is imported from
  \<^verbatim>\<open>../dialogs/ConfirmationDialog\<close>. The spec gives it a confirm action that calls
  the confirm callback and a dismissal that performs no host action; either closes the
  dialog, and neither can happen while no dialog is shown.
\<close>

definition confirm_dialog :: "BarState \<Rightarrow> BarState" where
  "confirm_dialog s =
     (case dialogMessage s of
        None \<Rightarrow> s
      | Some d \<Rightarrow> if showDialog s then fold run_effect (onConfirm d) (s\<lparr>showDialog := False\<rparr>) else s)"

definition dismiss_dialog :: "BarState \<Rightarrow> BarState" where
  "dismiss_dialog s = s\<lparr>showDialog := False\<rparr>"

text \<open>The first render: both cells at their initial values, then both effects in order.\<close>

definition mount :: "IndexingProgressUpdate option \<Rightarrow> BarState" where
  "mount prop =
     paused_effect (init_effect
       \<lparr>indexingStateProp = prop, paused = None, hovered = False, showDialog = False,
        dialogMessage = None, posted = [], captured = []\<rparr>)"

text \<open>What can happen to a mounted component: the parent renders it with a new (or the
  same) prop, the user clicks an element, moves the pointer, or answers the dialog.\<close>

datatype Event =
    Render "IndexingProgressUpdate option"
  | Click Element
  | MouseEnter
  | MouseLeave
  | Confirm
  | Dismiss

fun step :: "Env \<Rightarrow> Event \<Rightarrow> BarState \<Rightarrow> BarState" where
  "step env (Render prop) s = s\<lparr>indexingStateProp := prop\<rparr>"
| "step env (Click target) s = click env target s"
| "step env MouseEnter s = set_hovered env True s"
| "step env MouseLeave s = set_hovered env False s"
| "step env Confirm s = confirm_dialog s"
| "step env Dismiss s = dismiss_dialog s"

definition run :: "Env \<Rightarrow> Event list \<Rightarrow> BarState \<Rightarrow> BarState" where
  "run env evs s = fold (step env) evs s"

section \<open>Example inputs\<close>

text \<open>A VS Code host with the tooltip portal present, a JetBrains host, and an update
  with a given status and progress.\<close>

definition vscode :: Env where
  "vscode =
     \<lparr>isJetBrains = False, embeddingsProvider = Some ''ollama'',
      transformersJsModel = ''all-MiniLM-L6-v2'', tooltipPortalDiv = True\<rparr>"

definition jetbrains :: "string \<Rightarrow> Env" where
  "jetbrains provider =
     \<lparr>isJetBrains = True, embeddingsProvider = Some provider,
      transformersJsModel = ''all-MiniLM-L6-v2'', tooltipPortalDiv = True\<rparr>"

definition update :: "string \<Rightarrow> jsnum \<Rightarrow> IndexingProgressUpdate" where
  "update st p =
     \<lparr>progress = p, desc = ''Indexing files'', shouldClearIndexes = None, status = st\<rparr>"

section \<open>Observations\<close>

text \<open>How often a message of a given name was posted.\<close>

definition count_posted :: "string \<Rightarrow> BarState \<Rightarrow> nat" where
  "count_posted name s = length (filter (\<lambda>m. fst m = name) (posted s))"


text \<open>The heading as the text the user reads.\<close>

definition heading_text :: "Rendered \<Rightarrow> string option" where
  "heading_text r = (case heading r of None \<Rightarrow> None | Some cs \<Rightarrow> text_of cs)"

text \<open>
  The spec's precedence list (section 4.4, states 1 to 6), in the spec's words and order:
  each entry a condition on the update and the pause intent, and the state it selects;
  \<open>first_match\<close> takes the first entry whose condition holds.
\<close>

definition spec_display_order ::
  "IndexingProgressUpdate \<Rightarrow> bool option \<Rightarrow> (bool \<times> Variant) list" where
  "spec_display_order u intent =
     [(status u = ''failed'', Failed),
      (status u = ''loading'', Loading),
      (status u = ''done'', Done),
      (status u = ''disabled'', Disabled),
      (status u = ''paused'' \<or> (intent = Some True \<and> status u = ''indexing''), Paused),
      (status u = ''indexing'', Indexing)]"

fun first_match :: "(bool \<times> 'a) list \<Rightarrow> 'a \<Rightarrow> 'a" where
  "first_match [] d = d"
| "first_match ((c, v) # rest) d = (if c then v else first_match rest d)"

section \<open>Evaluating doubles\<close>

lemma floor_rat_numeral_div: "\<lfloor>(numeral a :: rat) / numeral b\<rfloor> = numeral a div numeral b"
  by (metis floor_divide_of_int_eq of_int_numeral)

lemmas double_eval =
  to_double_def round_pos_def floor_log2.simps pow2_def round_half_even_def Let_def
  js_neg_def floor_rat_numeral_div

lemma pow2_powi: "pow2 k = 2 powi k"
  by (simp add: pow2_def power_int_def power_one_over [symmetric] inverse_eq_divide)

lemma pow2_succ: "pow2 (k + 1) = 2 * pow2 k"
  by (simp add: pow2_powi power_int_add)

lemma pow2_pred: "pow2 (k - 1) = pow2 k / 2"
  using pow2_succ [of "k - 1"] by simp

lemma floor_log2_bounds:
  "0 < q \<Longrightarrow> pow2 (floor_log2 q) \<le> q \<and> q < 2 * pow2 (floor_log2 q)"
proof (induction q rule: floor_log2.induct)
  case (1 q)
  show ?case
  proof (cases "2 \<le> q")
    case True
    with 1 have "pow2 (floor_log2 (q / 2)) \<le> q / 2 \<and> q / 2 < 2 * pow2 (floor_log2 (q / 2))"
      by simp
    moreover have "floor_log2 q = floor_log2 (q / 2) + 1"
      using True 1 by (subst floor_log2.simps) simp
    ultimately show ?thesis
      by (simp add: pow2_succ)
  next
    case False
    show ?thesis
    proof (cases "q < 1")
      case True
      with 1 False have "pow2 (floor_log2 (q * 2)) \<le> q * 2 \<and> q * 2 < 2 * pow2 (floor_log2 (q * 2))"
        by simp
      moreover have "floor_log2 q = floor_log2 (q * 2) - 1"
        using True False 1 by (subst floor_log2.simps) simp
      ultimately show ?thesis
        by (simp add: pow2_pred)
    next
      case geq: False
      have "floor_log2 q = 0"
        using geq False 1 by (subst floor_log2.simps) simp
      then show ?thesis
        using geq False by (simp add: pow2_def)
    qed
  qed
qed

lemma exact_doubles:
  "to_double (1 / 2) = Fin (1 / 2) \<and> to_double 1 = Fin 1 \<and> to_double 100 = Fin 100"
  by (simp add: double_eval)

lemma Math_trunc_Fin: "Math_trunc (Fin q) = Fin (sgn q * of_int \<lfloor>\<bar>q\<bar>\<rfloor>)"
proof (cases "0 \<le> q")
  case True
  then show ?thesis
    by (cases "q = 0") (simp_all add: sgn_if)
next
  case False
  then have "\<lceil>q\<rceil> = - \<lfloor>- q\<rfloor>"
    by (simp add: ceiling_def)
  with False show ?thesis
    by (simp add: sgn_if abs_if)
qed

section \<open>How a click runs\<close>

lemmas mount_simps = mount_def init_effect_def paused_effect_def post_def

lemma dispatch_click_Row: "dispatch_click env v Row s = onClick env s"
  by (simp add: dispatch_click_def click_handler_def)

lemma dispatch_click_FlexDiv:
  "dispatch_click env v FlexDiv s =
     onClick env (if v = Indexing then post ''index/setPaused'' (Boolean True) s else s)"
  by (simp add: dispatch_click_def click_handler_def)

lemma dispatch_click_StatusDot:
  "dispatch_click env v StatusDot s =
     dispatch_click env v FlexDiv
       (if v = Paused then post ''index/setPaused'' (Boolean False) s else s)"
  by (simp add: dispatch_click_def click_handler_def)

lemmas dispatch_click_simps =
  dispatch_click_Row dispatch_click_FlexDiv dispatch_click_StatusDot

lemma indexingState_post: "indexingState (post m x s) = indexingState s"
  by (simp add: indexingState_def post_def)

lemma count_posted_post:
  "count_posted n (post m d s) = count_posted n s + (if m = n then 1 else 0)"
  by (simp add: count_posted_def post_def)

lemma dialogMessage_post: "dialogMessage (post m d s) = dialogMessage s"
  by (simp add: post_def)

lemma onConfirm_rebuildDialog:
  "onConfirm rebuildDialog =
     [Capture ''rebuild_index_clicked'', Post ''index/forceReIndex'' (ClearIndexes True)]"
  by (simp add: rebuildDialog_def)

lemma confirm_rebuildDialog:
  assumes "dialogMessage s = Some rebuildDialog"
  shows "confirm_dialog s =
     (if showDialog s
      then post ''index/forceReIndex'' (ClearIndexes True)
             (capture ''rebuild_index_clicked'' (s\<lparr>showDialog := False\<rparr>))
      else s)"
  using assms by (simp add: confirm_dialog_def onConfirm_rebuildDialog)

section \<open>Which display a status selects\<close>

text \<open>
  C1. A terminal status decides the display whatever the pause intent is: status
  \<^verbatim>\<open>done\<close> shows Done, \<^verbatim>\<open>failed\<close> shows Failed and \<^verbatim>\<open>disabled\<close> shows Disabled,
  never Paused. The branch taken is the first match of the spec's list, in the order
  failed, loading, done, disabled, paused, indexing.
\<close>

theorem terminal_status_precedence:
  "(status (indexingState s) = ''done'' \<longrightarrow> variant (IndexingProgressBar env s) = Done)
   \<and> (status (indexingState s) = ''failed'' \<longrightarrow> variant (IndexingProgressBar env s) = Failed)
   \<and> (status (indexingState s) = ''disabled'' \<longrightarrow>
        variant (IndexingProgressBar env s) = Disabled)
   \<and> variant (IndexingProgressBar env s) =
       first_match (spec_display_order (indexingState s) (paused s)) Null"
  by (simp add: IndexingProgressBar_def spec_display_order_def Let_def)

theorem terminal_status_precedence_witness:
  "status (indexingState ((mount (Some (update ''done'' (Fin 1))))\<lparr>paused := Some True\<rparr>)) = ''done''
   \<and> paused ((mount (Some (update ''done'' (Fin 1))))\<lparr>paused := Some True\<rparr>) = Some True
   \<and> variant (IndexingProgressBar vscode
        ((mount (Some (update ''done'' (Fin 1))))\<lparr>paused := Some True\<rparr>)) = Done
   \<and> variant (IndexingProgressBar vscode
        ((mount (Some (update ''failed'' (Fin (1 / 2)))))\<lparr>paused := Some True\<rparr>)) = Failed
   \<and> variant (IndexingProgressBar vscode
        ((mount (Some (update ''disabled'' (Fin 0))))\<lparr>paused := Some True\<rparr>)) = Disabled"
proof -
  have st: "status (indexingState ((mount (Some (update x p)))\<lparr>paused := Some True\<rparr>)) = x
      \<and> paused ((mount (Some (update x p)))\<lparr>paused := Some True\<rparr>) = Some True" for x p
    by (simp add: indexingState_def mount_simps update_def)
  show ?thesis
    using st
      terminal_status_precedence
        [of "(mount (Some (update ''done'' (Fin 1))))\<lparr>paused := Some True\<rparr>" vscode]
      terminal_status_precedence
        [of "(mount (Some (update ''failed'' (Fin (1 / 2)))))\<lparr>paused := Some True\<rparr>" vscode]
      terminal_status_precedence
        [of "(mount (Some (update ''disabled'' (Fin 0))))\<lparr>paused := Some True\<rparr>" vscode]
    by simp
qed

section \<open>The row's click\<close>

text \<open>
  C2. With status \<^verbatim>\<open>indexing\<close> or \<^verbatim>\<open>paused\<close>, a click that reaches only the row's
  handler toggles the pause intent when \<open>0 \<le> progress < 1\<close> (unset counts as not
  paused, so the first toggle gives true) and sends no \<^verbatim>\<open>forceReIndex\<close>; the new
  intent is then posted as \<^verbatim>\<open>index/setPaused\<close>. When \<open>progress \<ge> 1\<close> or
  \<open>progress < 0\<close> it posts \<^verbatim>\<open>index/forceReIndex\<close> with no payload and leaves the
  intent as it was.
\<close>

theorem row_click_active_status:
  assumes "status (indexingState s) = ''indexing'' \<or> status (indexingState s) = ''paused''"
  shows "(js_ge (progress (indexingState s)) (Fin 0) \<and> js_lt (progress (indexingState s)) (Fin 1) \<longrightarrow>
            onClick env s = s\<lparr>paused := Some (js_not (paused s))\<rparr>
            \<and> posted (onClick env s) = posted s
            \<and> click env Row s =
                post ''index/setPaused'' (Boolean (js_not (paused s)))
                  (s\<lparr>paused := Some (js_not (paused s))\<rparr>)
            \<and> paused (click env Row s) = Some (js_not (paused s))
            \<and> posted (click env Row s) =
                posted s @ [(''index/setPaused'', Boolean (js_not (paused s)))]
            \<and> count_posted ''index/forceReIndex'' (click env Row s) =
                count_posted ''index/forceReIndex'' s)
       \<and> (js_ge (progress (indexingState s)) (Fin 1) \<or> js_lt (progress (indexingState s)) (Fin 0) \<longrightarrow>
            onClick env s = post ''index/forceReIndex'' Undefined s
            \<and> posted (onClick env s) = posted s @ [(''index/forceReIndex'', Undefined)]
            \<and> click env Row s = post ''index/forceReIndex'' Undefined s
            \<and> posted (click env Row s) = posted s @ [(''index/forceReIndex'', Undefined)]
            \<and> count_posted ''index/forceReIndex'' (click env Row s) =
                count_posted ''index/forceReIndex'' s + 1
            \<and> count_posted ''index/setPaused'' (click env Row s) =
                count_posted ''index/setPaused'' s
            \<and> paused (click env Row s) = paused s)
       \<and> js_not None = True \<and> js_not (Some False) = True \<and> js_not (Some True) = False"
proof -
  obtain u where u: "indexingState s = u"
    by simp
  have range: "js_ge (progress u) (Fin 1) \<or> js_lt (progress u) (Fin 0) \<Longrightarrow>
      \<not> (js_lt (progress u) (Fin 1) \<and> js_ge (progress u) (Fin 0))"
    by (cases "progress u") auto
  have st: "status u = ''indexing'' \<or> status u = ''paused''"
    using assms u by simp
  have toggles: "paused s \<noteq> Some (js_not (paused s))"
    by (cases "paused s") (auto simp: js_not_def)
  have inside: "js_ge (progress u) (Fin 0) \<and> js_lt (progress u) (Fin 1) \<Longrightarrow>
      onClick env s = s\<lparr>paused := Some (js_not (paused s))\<rparr>"
    using st u by (auto simp: onClick_def)
  have outside: "js_ge (progress u) (Fin 1) \<or> js_lt (progress u) (Fin 0) \<Longrightarrow>
      onClick env s = post ''index/forceReIndex'' Undefined s"
    using st u range by (auto simp: onClick_def)
  have row: "click env Row s = commit (paused s) (onClick env s)"
    by (simp add: click_def dispatch_click_Row)
  show ?thesis
    using inside outside toggles
    by (auto simp: row u commit_def paused_effect_def post_def count_posted_def js_not_def)
qed

theorem row_click_active_status_witness:
  "posted (click vscode Row (mount (Some (update ''indexing'' (Fin (1 / 2)))))) =
     [(''index/indexingProgressBarInitialized'', Undefined), (''index/setPaused'', Boolean True)]
   \<and> paused (click vscode Row (mount (Some (update ''indexing'' (Fin (1 / 2)))))) = Some True
   \<and> posted (click vscode Row (mount (Some (update ''paused'' (Fin 1))))) =
     [(''index/indexingProgressBarInitialized'', Undefined), (''index/forceReIndex'', Undefined)]
   \<and> paused (click vscode Row (mount (Some (update ''paused'' (Fin 1))))) = None
   \<and> posted (click vscode Row (mount (Some (update ''indexing'' (Fin (- 1 / 4)))))) =
     [(''index/indexingProgressBarInitialized'', Undefined), (''index/forceReIndex'', Undefined)]
   \<and> paused (click vscode Row (mount (Some (update ''indexing'' (Fin (- 1 / 4)))))) = None"
proof -
  let ?half = "mount (Some (update ''indexing'' (Fin (1 / 2))))"
  let ?full = "mount (Some (update ''paused'' (Fin 1)))"
  let ?below = "mount (Some (update ''indexing'' (Fin (- 1 / 4))))"
  have m: "status (indexingState (mount (Some (update st p)))) = st
      \<and> progress (indexingState (mount (Some (update st p)))) = p
      \<and> paused (mount (Some (update st p))) = None
      \<and> posted (mount (Some (update st p))) =
          [(''index/indexingProgressBarInitialized'', Undefined)]" for st p
    by (simp add: indexingState_def mount_simps update_def)
  have half: "status (indexingState ?half) = ''indexing'' \<or> status (indexingState ?half) = ''paused''"
    "js_ge (progress (indexingState ?half)) (Fin 0) \<and> js_lt (progress (indexingState ?half)) (Fin 1)"
    by (simp_all add: m)
  have full: "status (indexingState ?full) = ''indexing'' \<or> status (indexingState ?full) = ''paused''"
    "js_ge (progress (indexingState ?full)) (Fin 1) \<or> js_lt (progress (indexingState ?full)) (Fin 0)"
    by (simp_all add: m)
  have below: "status (indexingState ?below) = ''indexing'' \<or> status (indexingState ?below) = ''paused''"
    "js_ge (progress (indexingState ?below)) (Fin 1) \<or> js_lt (progress (indexingState ?below)) (Fin 0)"
    by (simp_all add: m)
  have a: "posted (click vscode Row ?half) =
        posted ?half @ [(''index/setPaused'', Boolean (js_not (paused ?half)))]
      \<and> paused (click vscode Row ?half) = Some (js_not (paused ?half))"
    using row_click_active_status [OF half(1), of vscode] half(2) by blast
  have b: "posted (click vscode Row ?full) = posted ?full @ [(''index/forceReIndex'', Undefined)]
      \<and> paused (click vscode Row ?full) = paused ?full"
    using row_click_active_status [OF full(1), of vscode] full(2) by blast
  have c: "posted (click vscode Row ?below) = posted ?below @ [(''index/forceReIndex'', Undefined)]
      \<and> paused (click vscode Row ?below) = paused ?below"
    using row_click_active_status [OF below(1), of vscode] below(2) by blast
  show ?thesis
    using a b c by (simp add: m js_not_def)
qed

text \<open>
  C3. A click in the Failed display, with \<^verbatim>\<open>shouldClearIndexes\<close> true and a host
  that is not JetBrains, opens the confirmation dialog and posts nothing; confirming
  posts \<^verbatim>\<open>index/forceReIndex\<close> with \<^verbatim>\<open>{shouldClearIndexes: true}\<close>, dismissing posts
  nothing. With \<^verbatim>\<open>shouldClearIndexes\<close> falsy, or on JetBrains, the click posts
  \<^verbatim>\<open>index/forceReIndex\<close> with no payload at once and the dialog state is untouched.
\<close>

theorem failed_click_confirmation:
  assumes "status (indexingState s) = ''failed''"
  shows "(shouldClearIndexes (indexingState s) = Some True \<and> \<not> isJetBrains env \<longrightarrow>
            click env target s = s\<lparr>showDialog := True, dialogMessage := Some rebuildDialog\<rparr>
            \<and> posted (click env target s) = posted s
            \<and> posted (confirm_dialog (click env target s)) =
                posted s @ [(''index/forceReIndex'', ClearIndexes True)]
            \<and> posted (dismiss_dialog (click env target s)) = posted s)
       \<and> (shouldClearIndexes (indexingState s) \<noteq> Some True \<or> isJetBrains env \<longrightarrow>
            click env target s = post ''index/forceReIndex'' Undefined s
            \<and> showDialog (click env target s) = showDialog s
            \<and> dialogMessage (click env target s) = dialogMessage s)"
proof -
  have v: "variant (IndexingProgressBar env s) = Failed"
    using assms by (simp add: IndexingProgressBar_def)
  have row: "click env target s = commit (paused s) (onClick env s)"
    by (cases target) (simp_all add: click_def dispatch_click_simps v)
  have opens: "shouldClearIndexes (indexingState s) = Some True \<and> \<not> isJetBrains env \<Longrightarrow>
      onClick env s = s\<lparr>showDialog := True, dialogMessage := Some rebuildDialog\<rparr>"
    using assms by (simp add: onClick_def)
  have direct: "shouldClearIndexes (indexingState s) \<noteq> Some True \<or> isJetBrains env \<Longrightarrow>
      onClick env s = post ''index/forceReIndex'' Undefined s"
    using assms by (auto simp: onClick_def)
  show ?thesis
    using opens direct
    by (auto simp: row commit_def post_def confirm_rebuildDialog dismiss_dialog_def capture_def)
qed

theorem failed_click_confirmation_witness:
  "posted (click vscode Row (mount (Some ((update ''failed'' (Fin 0))
       \<lparr>shouldClearIndexes := Some True\<rparr>)))) =
     [(''index/indexingProgressBarInitialized'', Undefined)]
   \<and> showDialog (click vscode Row (mount (Some ((update ''failed'' (Fin 0))
       \<lparr>shouldClearIndexes := Some True\<rparr>))))
   \<and> posted (confirm_dialog (click vscode Row (mount (Some ((update ''failed'' (Fin 0))
       \<lparr>shouldClearIndexes := Some True\<rparr>))))) =
     [(''index/indexingProgressBarInitialized'', Undefined),
      (''index/forceReIndex'', ClearIndexes True)]
   \<and> posted (dismiss_dialog (click vscode Row (mount (Some ((update ''failed'' (Fin 0))
       \<lparr>shouldClearIndexes := Some True\<rparr>))))) =
     [(''index/indexingProgressBarInitialized'', Undefined)]
   \<and> posted (click vscode Row (mount (Some (update ''failed'' (Fin 0))))) =
     [(''index/indexingProgressBarInitialized'', Undefined), (''index/forceReIndex'', Undefined)]
   \<and> \<not> showDialog (click vscode Row (mount (Some (update ''failed'' (Fin 0)))))
   \<and> posted (click (jetbrains ''ollama'') Row (mount (Some ((update ''failed'' (Fin 0))
       \<lparr>shouldClearIndexes := Some True\<rparr>)))) =
     [(''index/indexingProgressBarInitialized'', Undefined), (''index/forceReIndex'', Undefined)]"
proof -
  let ?corrupt = "mount (Some ((update ''failed'' (Fin 0))\<lparr>shouldClearIndexes := Some True\<rparr>))"
  let ?plain = "mount (Some (update ''failed'' (Fin 0)))"
  have corrupt: "status (indexingState ?corrupt) = ''failed''"
    "shouldClearIndexes (indexingState ?corrupt) = Some True"
    "posted ?corrupt = [(''index/indexingProgressBarInitialized'', Undefined)]"
    by (simp_all add: indexingState_def mount_simps update_def)
  have plain: "status (indexingState ?plain) = ''failed''"
    "shouldClearIndexes (indexingState ?plain) \<noteq> Some True"
    "posted ?plain = [(''index/indexingProgressBarInitialized'', Undefined)]"
    "\<not> showDialog ?plain"
    by (simp_all add: indexingState_def mount_simps update_def)
  have hosts: "\<not> isJetBrains vscode" "isJetBrains (jetbrains ''ollama'')"
    by (simp_all add: vscode_def jetbrains_def)
  have opened: "click vscode Row ?corrupt =
        ?corrupt\<lparr>showDialog := True, dialogMessage := Some rebuildDialog\<rparr>"
    and answered: "posted (click vscode Row ?corrupt) = posted ?corrupt
      \<and> posted (confirm_dialog (click vscode Row ?corrupt)) =
          posted ?corrupt @ [(''index/forceReIndex'', ClearIndexes True)]
      \<and> posted (dismiss_dialog (click vscode Row ?corrupt)) = posted ?corrupt"
    using failed_click_confirmation [OF corrupt(1), of vscode Row] corrupt(2) hosts(1)
    by blast+
  have "showDialog (click vscode Row ?corrupt)"
    by (subst opened) simp
  with answered have a: "posted (click vscode Row ?corrupt) = posted ?corrupt
      \<and> showDialog (click vscode Row ?corrupt)
      \<and> posted (confirm_dialog (click vscode Row ?corrupt)) =
          posted ?corrupt @ [(''index/forceReIndex'', ClearIndexes True)]
      \<and> posted (dismiss_dialog (click vscode Row ?corrupt)) = posted ?corrupt"
    by blast
  have b: "posted (click vscode Row ?plain) = posted ?plain @ [(''index/forceReIndex'', Undefined)]
      \<and> showDialog (click vscode Row ?plain) = showDialog ?plain"
    using failed_click_confirmation [OF plain(1), of vscode Row] plain(2)
    by (auto simp: post_def)
  have c: "posted (click (jetbrains ''ollama'') Row ?corrupt) =
      posted ?corrupt @ [(''index/forceReIndex'', Undefined)]"
    using failed_click_confirmation [OF corrupt(1), of "jetbrains ''ollama''" Row] hosts(2)
    by (auto simp: post_def)
  show ?thesis
    using a b c by (simp add: corrupt(3) plain(3,4))
qed

section \<open>Clicks on the inner elements\<close>

lemma indexing_click_posts:
  assumes "variant (IndexingProgressBar env s) = Indexing"
    and "js_ge (progress (indexingState s)) (Fin 0)"
    and "js_lt (progress (indexingState s)) (Fin 1)"
    and "target = FlexDiv \<or> target = StatusDot"
  shows "click env target s =
     s\<lparr>paused := Some True, posted := posted s @
        [(''index/setPaused'', Boolean True), (''index/setPaused'', Boolean True)]\<rparr>"
proof -
  have st: "status (indexingState s) = ''indexing'' \<and> paused s \<noteq> Some True"
    using assms(1) by (auto simp: IndexingProgressBar_def Let_def split: if_splits)
  then have n: "js_not (paused s) = True"
    by (cases "paused s") (auto simp: js_not_def)
  have d: "dispatch_click env Indexing target s =
      s\<lparr>paused := Some True, posted := posted s @ [(''index/setPaused'', Boolean True)]\<rparr>"
    using assms(2,3,4) st n
    by (auto simp: dispatch_click_simps onClick_def indexingState_post) (simp_all add: post_def)
  have ne: "Some True \<noteq> paused s"
    using st by auto
  show ?thesis
    by (simp add: click_def assms(1) d commit_def paused_effect_def post_def ne)
qed

lemma status_dot_click_posts:
  assumes "variant (IndexingProgressBar env s) = Paused"
    and "js_ge (progress (indexingState s)) (Fin 0)"
    and "js_lt (progress (indexingState s)) (Fin 1)"
  shows "click env StatusDot s =
     s\<lparr>paused := Some (js_not (paused s)), posted := posted s @
        [(''index/setPaused'', Boolean False),
         (''index/setPaused'', Boolean (js_not (paused s)))]\<rparr>"
proof -
  have st: "status (indexingState s) = ''indexing'' \<or> status (indexingState s) = ''paused''"
    using assms(1) by (auto simp: IndexingProgressBar_def Let_def split: if_splits)
  have n: "paused s \<noteq> Some (js_not (paused s))"
    by (cases "paused s") (auto simp: js_not_def)
  have d: "dispatch_click env Paused StatusDot s =
      s\<lparr>paused := Some (js_not (paused s)),
         posted := posted s @ [(''index/setPaused'', Boolean False)]\<rparr>"
    using assms(2,3) st
    by (auto simp: dispatch_click_simps onClick_def indexingState_post) (simp_all add: post_def)
  have ne: "Some (js_not (paused s)) \<noteq> paused s"
    using n by auto
  show ?thesis
    by (simp add: click_def assms(1) d commit_def paused_effect_def post_def ne)
qed

text \<open>
  C4. One click on the Indexing display, status \<^verbatim>\<open>indexing\<close>, progress 0.5, pause
  intent unset: the \<^verbatim>\<open>FlexDiv\<close>'s handler posts \<^verbatim>\<open>index/setPaused\<close> with true, the
  click goes on to the row's handler, which sets the intent to true, and the
  \<^verbatim>\<open>[paused]\<close> effect posts \<^verbatim>\<open>index/setPaused\<close> with true again. Two such messages are
  sent, not one.
\<close>

theorem indexing_click_posts_setPaused_twice:
  "variant (IndexingProgressBar env (mount (Some \<lparr>progress = Fin (1 / 2), desc = d,
       shouldClearIndexes = c, status = ''indexing''\<rparr>))) = Indexing
   \<and> paused (mount (Some \<lparr>progress = Fin (1 / 2), desc = d,
       shouldClearIndexes = c, status = ''indexing''\<rparr>)) = None
   \<and> posted (click env FlexDiv (mount (Some \<lparr>progress = Fin (1 / 2), desc = d,
       shouldClearIndexes = c, status = ''indexing''\<rparr>))) =
     [(''index/indexingProgressBarInitialized'', Undefined),
      (''index/setPaused'', Boolean True),
      (''index/setPaused'', Boolean True)]
   \<and> count_posted ''index/setPaused'' (click env FlexDiv (mount (Some \<lparr>progress = Fin (1 / 2),
       desc = d, shouldClearIndexes = c, status = ''indexing''\<rparr>))) = 2"
  by (simp add: click_def dispatch_click_simps commit_def onClick_def IndexingProgressBar_def
        indexingState_def mount_simps js_not_def count_posted_def)


section \<open>Numbers on display\<close>

lemma fillPercentage_cases:
  "fillPercentage u =
     (case js_mul (progress u) (Fin 100) of
        NaN \<Rightarrow> NaN
      | Fin r \<Rightarrow> Fin (min 100 (max 0 r))
      | PInf \<Rightarrow> Fin 100
      | NInf \<Rightarrow> Fin 0)"
  by (cases "js_mul (progress u) (Fin 100)") (auto simp: fillPercentage_def)

text \<open>
  C6. For every progress value the fill is
  \<^verbatim>\<open>Math.min(100, Math.max(0, progress * 100))\<close>: the double product clamped to
  \<open>[0, 100]\<close> when it is a number (an overflowed product clamps to 100 or 0), and
  \<^verbatim>\<open>NaN\<close> when it is not. At the doubles written \<^verbatim>\<open>-0.2\<close>, \<^verbatim>\<open>1.4\<close> and
  \<^verbatim>\<open>0.37\<close> the fill is 0, 100 and 37.
\<close>

theorem fill_clamp:
  "fillPercentage u = Math_min (Fin 100) (Math_max (Fin 0) (js_mul (progress u) (Fin 100)))
   \<and> fillPercentage u =
     (case js_mul (progress u) (Fin 100) of
        NaN \<Rightarrow> NaN
      | Fin r \<Rightarrow> Fin (min 100 (max 0 r))
      | PInf \<Rightarrow> Fin 100
      | NInf \<Rightarrow> Fin 0)
   \<and> fillPercentage (u\<lparr>progress := to_double (- 2 / 10)\<rparr>) = Fin 0
   \<and> fillPercentage (u\<lparr>progress := to_double (14 / 10)\<rparr>) = Fin 100
   \<and> fillPercentage (u\<lparr>progress := to_double (37 / 100)\<rparr>) = Fin 37"
proof -
  have a: "fillPercentage u = Math_min (Fin 100) (Math_max (Fin 0) (js_mul (progress u) (Fin 100)))"
    by (simp add: fillPercentage_def)
  have b: "fillPercentage (u\<lparr>progress := to_double (- 2 / 10)\<rparr>) = Fin 0"
    by (simp add: fillPercentage_def double_eval)
  have c: "fillPercentage (u\<lparr>progress := to_double (14 / 10)\<rparr>) = Fin 100"
    by (simp add: fillPercentage_def double_eval)
  have d: "fillPercentage (u\<lparr>progress := to_double (37 / 100)\<rparr>) = Fin 37"
    by (simp add: fillPercentage_def double_eval)
  show ?thesis
    using a b c d fillPercentage_cases [of u] by simp
qed

lemma labels_at_examples:
  "heading_text (IndexingProgressBar env (mount (Some (update ''indexing''
       (to_double (999 / 1000)))))) = Some ''99%''
   \<and> completed (IndexingProgressBar env (mount (Some (update ''indexing''
       (to_double (999 / 1000)))))) = Some (Fin (3514918771674317 / 35184372088832))
   \<and> heading_text (IndexingProgressBar env (mount (Some (update ''paused''
       (to_double (999 / 1000)))))) = Some ''Indexing paused (99%)''
   \<and> heading_text (IndexingProgressBar env (mount (Some (update ''indexing''
       (to_double (14 / 10)))))) = Some ''140%''
   \<and> completed (IndexingProgressBar env (mount (Some (update ''indexing''
       (to_double (14 / 10)))))) = Some (Fin 100)"
  by (simp add: heading_text_def IndexingProgressBar_def indexingState_def mount_simps
        update_def fillPercentage_def double_eval js_toString_def digits.simps)

text \<open>
  C7. In the Paused and in the Indexing display the percent shown is
  \<^verbatim>\<open>Math.trunc(progress * 100)\<close>: the product with its fraction dropped, toward zero,
  neither rounded nor clamped. The double written \<^verbatim>\<open>0.999\<close> shows \<^verbatim>\<open>99%\<close> in both
  displays while the fill is the double 99.9; \<^verbatim>\<open>1.4\<close> shows \<^verbatim>\<open>140%\<close> while the fill
  is 100.
\<close>

theorem percent_label_truncated:
  "(variant (IndexingProgressBar env s) = Paused \<longrightarrow>
      heading (IndexingProgressBar env s) =
        Some [Txt ''Indexing paused ('',
              Num (Math_trunc (js_mul (progress (indexingState s)) (Fin 100))), Txt ''%)''])
   \<and> (variant (IndexingProgressBar env s) = Indexing \<longrightarrow>
      heading (IndexingProgressBar env s) =
        Some [Num (Math_trunc (js_mul (progress (indexingState s)) (Fin 100))), Txt ''%''])
   \<and> Math_trunc (Fin q) = Fin (sgn q * of_int \<lfloor>\<bar>q\<bar>\<rfloor>)
   \<and> heading_text (IndexingProgressBar env (mount (Some (update ''indexing''
       (to_double (999 / 1000)))))) = Some ''99%''
   \<and> completed (IndexingProgressBar env (mount (Some (update ''indexing''
       (to_double (999 / 1000)))))) = Some (Fin (3514918771674317 / 35184372088832))
   \<and> heading_text (IndexingProgressBar env (mount (Some (update ''paused''
       (to_double (999 / 1000)))))) = Some ''Indexing paused (99%)''
   \<and> heading_text (IndexingProgressBar env (mount (Some (update ''indexing''
       (to_double (14 / 10)))))) = Some ''140%''
   \<and> completed (IndexingProgressBar env (mount (Some (update ''indexing''
       (to_double (14 / 10)))))) = Some (Fin 100)"
proof -
  have general:
    "(variant (IndexingProgressBar env s) = Paused \<longrightarrow>
        heading (IndexingProgressBar env s) =
          Some [Txt ''Indexing paused ('',
                Num (Math_trunc (js_mul (progress (indexingState s)) (Fin 100))), Txt ''%)''])
     \<and> (variant (IndexingProgressBar env s) = Indexing \<longrightarrow>
        heading (IndexingProgressBar env s) =
          Some [Num (Math_trunc (js_mul (progress (indexingState s)) (Fin 100))), Txt ''%''])"
    by (simp add: IndexingProgressBar_def Let_def)
  show ?thesis
    using general labels_at_examples [of env] Math_trunc_Fin [of q] by blast
qed

theorem percent_label_truncated_witness:
  "variant (IndexingProgressBar vscode (mount (Some (update ''paused'' (Fin (3 / 4)))))) = Paused
   \<and> heading (IndexingProgressBar vscode (mount (Some (update ''paused'' (Fin (3 / 4)))))) =
       Some [Txt ''Indexing paused ('', Num (Fin 75), Txt ''%)'']
   \<and> variant (IndexingProgressBar vscode (mount (Some (update ''indexing'' (Fin (3 / 4)))))) =
       Indexing
   \<and> heading (IndexingProgressBar vscode (mount (Some (update ''indexing'' (Fin (3 / 4)))))) =
       Some [Num (Fin 75), Txt ''%'']"
proof -
  have v: "variant (IndexingProgressBar vscode (mount (Some (update ''paused'' (Fin (3 / 4)))))) =
        Paused
      \<and> variant (IndexingProgressBar vscode (mount (Some (update ''indexing'' (Fin (3 / 4)))))) =
        Indexing"
    by (simp add: IndexingProgressBar_def indexingState_def mount_simps update_def)
  have m: "Math_trunc (js_mul (Fin (3 / 4)) (Fin 100)) = Fin 75"
    by (simp add: double_eval)
  have i: "progress (indexingState (mount (Some (update st (Fin (3 / 4)))))) = Fin (3 / 4)" for st
    by (simp add: indexingState_def mount_simps update_def)
  show ?thesis
    using v m i
      percent_label_truncated [of vscode "mount (Some (update ''paused'' (Fin (3 / 4))))"]
      percent_label_truncated [of vscode "mount (Some (update ''indexing'' (Fin (3 / 4))))"]
    by simp
qed

section \<open>The initialized notification\<close>

lemma onClick_keeps_initialized:
  "count_posted ''index/indexingProgressBarInitialized'' (onClick env s) =
     count_posted ''index/indexingProgressBarInitialized'' s
   \<and> (dialogMessage (onClick env s) = dialogMessage s
        \<or> dialogMessage (onClick env s) = Some rebuildDialog)"
  by (simp add: onClick_def Let_def count_posted_post dialogMessage_post)
     (simp add: count_posted_def)

lemma dispatch_click_keeps_initialized:
  "count_posted ''index/indexingProgressBarInitialized'' (dispatch_click env v target s) =
     count_posted ''index/indexingProgressBarInitialized'' s
   \<and> (dialogMessage (dispatch_click env v target s) = dialogMessage s
        \<or> dialogMessage (dispatch_click env v target s) = Some rebuildDialog)"
proof (cases target)
  case Row
  then show ?thesis
    using onClick_keeps_initialized [of env s] by (simp add: dispatch_click_simps)
next
  case FlexDiv
  then show ?thesis
    using onClick_keeps_initialized [of env s]
      onClick_keeps_initialized [of env "post ''index/setPaused'' (Boolean True) s"]
    by (simp add: dispatch_click_simps count_posted_post dialogMessage_post)
next
  case StatusDot
  then show ?thesis
    using onClick_keeps_initialized [of env s]
      onClick_keeps_initialized [of env "post ''index/setPaused'' (Boolean False) s"]
      onClick_keeps_initialized [of env "post ''index/setPaused'' (Boolean True) s"]
    by (simp add: dispatch_click_simps count_posted_post dialogMessage_post)
qed

lemma commit_keeps_initialized:
  "count_posted ''index/indexingProgressBarInitialized'' (commit prev s) =
     count_posted ''index/indexingProgressBarInitialized'' s
   \<and> dialogMessage (commit prev s) = dialogMessage s"
  by (cases "paused s")
     (simp_all add: commit_def paused_effect_def count_posted_post dialogMessage_post)

lemma step_keeps_initialized:
  assumes "dialogMessage s = None \<or> dialogMessage s = Some rebuildDialog"
  shows "(dialogMessage (step env ev s) = None \<or> dialogMessage (step env ev s) = Some rebuildDialog)
     \<and> count_posted ''index/indexingProgressBarInitialized'' (step env ev s) =
         count_posted ''index/indexingProgressBarInitialized'' s"
proof (cases ev)
  case (Click target)
  show ?thesis
    using assms commit_keeps_initialized
      dispatch_click_keeps_initialized [of env "variant (IndexingProgressBar env s)" target s]
    by (auto simp: Click click_def)
next
  case Confirm
  show ?thesis
  proof (cases "dialogMessage s")
    case None
    then show ?thesis
      by (simp add: Confirm confirm_dialog_def)
  next
    case (Some d)
    then have "dialogMessage s = Some rebuildDialog"
      using assms by simp
    then show ?thesis
      by (simp add: Confirm confirm_rebuildDialog post_def capture_def count_posted_def)
  qed
qed (use assms in \<open>auto simp: set_hovered_def dismiss_dialog_def count_posted_def\<close>)

lemma run_keeps_initialized:
  assumes "dialogMessage s = None \<or> dialogMessage s = Some rebuildDialog"
  shows "count_posted ''index/indexingProgressBarInitialized'' (run env evs s) =
         count_posted ''index/indexingProgressBarInitialized'' s"
  using assms
proof (induction evs arbitrary: s)
  case Nil
  then show ?case
    by (simp add: run_def)
next
  case (Cons ev evs)
  from step_keeps_initialized [OF Cons.prems, of env ev]
  have "count_posted ''index/indexingProgressBarInitialized'' (run env evs (step env ev s)) =
        count_posted ''index/indexingProgressBarInitialized'' (step env ev s)"
    using Cons.IH by blast
  then show ?case
    using step_keeps_initialized [OF Cons.prems, of env ev] by (simp add: run_def)
qed

text \<open>
  C8. Mounting posts \<^verbatim>\<open>index/indexingProgressBarInitialized\<close> once, as the first
  message, and whatever happens afterwards within the mount (renders with new props,
  clicks, pointer moves, dialog answers, in any number and order) it is never posted
  again: the count stays 1.
\<close>

theorem initialized_posted_once:
  "posted (mount prop) = [(''index/indexingProgressBarInitialized'', Undefined)]
   \<and> count_posted ''index/indexingProgressBarInitialized'' (run env evs (mount prop)) = 1"
proof -
  have m: "posted (mount prop) = [(''index/indexingProgressBarInitialized'', Undefined)]"
    by (simp add: mount_simps)
  have d: "dialogMessage (mount prop) = None"
    by (simp add: mount_simps)
  show ?thesis
    using run_keeps_initialized [of "mount prop" env evs] m d by (simp add: count_posted_def)
qed

section \<open>What the display depends on\<close>










section \<open>The pause reconciler while the intent is unset\<close>

lemma run_renders:
  "run env (map Render props) s =
     s\<lparr>indexingStateProp := (if props = [] then indexingStateProp s else last props)\<rparr>"
  by (induction props arbitrary: s) (auto simp: run_def)

text \<open>
  C10. While the pause intent is unset the \<^verbatim>\<open>[paused]\<close> effect posts nothing: the
  effect, and the commit that would run it, leave the state as it is; a click after
  which the intent is still unset has posted only what its handlers posted. The intent
  is unset after mounting and after any sequence of renders with new updates, and no
  \<^verbatim>\<open>index/setPaused\<close> has been posted then.
\<close>

theorem no_setPaused_while_intent_unset:
  "(paused s = None \<longrightarrow> paused_effect s = s \<and> commit prev s = s)
   \<and> (paused (click env target s) = None \<longrightarrow>
        click env target s = dispatch_click env (variant (IndexingProgressBar env s)) target s)
   \<and> paused (mount prop) = None
   \<and> paused (run env (map Render props) (mount prop)) = None
   \<and> count_posted ''index/setPaused'' (run env (map Render props) (mount prop)) = 0"
proof -
  have a: "paused s = None \<longrightarrow> paused_effect s = s \<and> commit prev s = s"
    by (simp add: paused_effect_def commit_def)
  have b: "paused (click env target s) = None \<longrightarrow>
        click env target s = dispatch_click env (variant (IndexingProgressBar env s)) target s"
    by (auto simp: click_def commit_def paused_effect_def post_def split: option.splits)
  have c: "paused (mount prop) = None
      \<and> posted (mount prop) = [(''index/indexingProgressBarInitialized'', Undefined)]"
    by (simp add: mount_simps)
  show ?thesis
    using a b c by (simp add: run_renders count_posted_def)
qed

theorem no_setPaused_while_intent_unset_witness:
  "paused (mount (Some (update ''paused'' (Fin 1)))) = None
   \<and> paused_effect (mount (Some (update ''paused'' (Fin 1)))) =
       mount (Some (update ''paused'' (Fin 1)))
   \<and> paused (click vscode StatusDot (mount (Some (update ''paused'' (Fin 1))))) = None
   \<and> posted (click vscode StatusDot (mount (Some (update ''paused'' (Fin 1))))) =
       [(''index/indexingProgressBarInitialized'', Undefined),
        (''index/setPaused'', Boolean False), (''index/forceReIndex'', Undefined)]
   \<and> posted (run vscode [Render (Some (update ''indexing'' (Fin (1 / 4)))),
        Render (Some (update ''paused'' (Fin (1 / 4)))),
        Render (Some (update ''done'' (Fin 1)))] (mount None)) =
       [(''index/indexingProgressBarInitialized'', Undefined)]"
proof -
  have p: "paused (mount (Some (update ''paused'' (Fin 1)))) = None"
    by (simp add: mount_simps)
  have c: "dispatch_click vscode (variant (IndexingProgressBar vscode
        (mount (Some (update ''paused'' (Fin 1)))))) StatusDot
        (mount (Some (update ''paused'' (Fin 1)))) =
      (mount (Some (update ''paused'' (Fin 1))))\<lparr>posted :=
        [(''index/indexingProgressBarInitialized'', Undefined),
         (''index/setPaused'', Boolean False), (''index/forceReIndex'', Undefined)]\<rparr>"
    by (simp add: dispatch_click_simps onClick_def IndexingProgressBar_def indexingState_def
          mount_simps update_def)
  have k: "paused (click vscode StatusDot (mount (Some (update ''paused'' (Fin 1))))) = None"
    by (simp add: click_def c commit_def p)
  have r: "posted (run vscode [Render (Some (update ''indexing'' (Fin (1 / 4)))),
        Render (Some (update ''paused'' (Fin (1 / 4)))),
        Render (Some (update ''done'' (Fin 1)))] (mount None)) =
       [(''index/indexingProgressBarInitialized'', Undefined)]"
    by (simp add: run_def mount_simps)
  have e: "(mount (Some (update ''paused'' (Fin 1))))\<lparr>posted :=
        [(''index/indexingProgressBarInitialized'', Undefined),
         (''index/setPaused'', Boolean False), (''index/forceReIndex'', Undefined)]\<rparr> = x
      \<Longrightarrow> posted x = [(''index/indexingProgressBarInitialized'', Undefined),
         (''index/setPaused'', Boolean False), (''index/forceReIndex'', Undefined)]" for x
    by auto
  have t: "paused_effect (mount (Some (update ''paused'' (Fin 1)))) =
        mount (Some (update ''paused'' (Fin 1)))
      \<and> click vscode StatusDot (mount (Some (update ''paused'' (Fin 1)))) =
        dispatch_click vscode (variant (IndexingProgressBar vscode
          (mount (Some (update ''paused'' (Fin 1)))))) StatusDot
          (mount (Some (update ''paused'' (Fin 1))))"
    using p k
      no_setPaused_while_intent_unset
        [of "mount (Some (update ''paused'' (Fin 1)))" None vscode StatusDot]
    by blast
  show ?thesis
    using p k r t e [OF c [symmetric]] by simp
qed

end
